theory Spec2Isabelle
  imports Complex_Main
begin

section \<open>Values shared by the API client and the application\<close>

text \<open>
  JavaScript numbers are IEEE doubles.  Byte counts, timestamps (milliseconds) and percent
  values are integers in every run considered here and are modelled as \<open>int\<close>; transfer
  rates are modelled as exact rationals (\<open>rat\<close>), so rounding of doubles is not
  represented.
\<close>

text \<open>\<open>interface IngestResponse\<close> (types.ts).\<close>

record IngestResponse =
  file_name :: string
  status :: string
  upload_id :: "string option"
  display_name :: "string option"

text \<open>\<open>interface UploadProgressInfo\<close> (services/api.ts): the value handed to \<open>onProgress\<close>.\<close>

record UploadProgressInfo =
  progress :: int
  loaded :: int
  total :: int
  speed :: rat
  message :: string

text \<open>
  A thrown JavaScript value: either an \<open>Error\<close> object with its \<open>message\<close>, or a value
  for which \<open>err instanceof Error\<close> is false.
\<close>

datatype js_exn = ErrorObj string | NonError

text \<open>\<open>s || d\<close> on an optional string: an absent or empty string is falsy.\<close>

definition strOr :: "string option \<Rightarrow> string \<Rightarrow> string" where
  "strOr s d = (case s of None \<Rightarrow> d | Some v \<Rightarrow> if v = [] then d else v)"

text \<open>\<open>x || 0\<close> on an optional number.\<close>

definition intOr0 :: "int option \<Rightarrow> int" where
  "intOr0 x = (case x of None \<Rightarrow> 0 | Some v \<Rightarrow> v)"

definition ratOr0 :: "rat option \<Rightarrow> rat" where
  "ratOr0 x = (case x of None \<Rightarrow> 0 | Some v \<Rightarrow> v)"

text \<open>Truthiness of an optional string (\<open>if (s)\<close>).\<close>

definition truthy :: "string option \<Rightarrow> bool" where
  "truthy s = (case s of None \<Rightarrow> False | Some v \<Rightarrow> v \<noteq> [])"

section \<open>Remote-fetch channel: \<open>ingestUrl\<close>\<close>

text \<open>
  The JSON body of \<open>GET /api/progress/{upload_id}\<close> as the poll loop reads it
  (\<open>progressData\<close>); every field but \<open>progress\<close> may be absent.
\<close>

record ProgressData =
  pd_progress :: int
  pd_loaded :: "int option"
  pd_total :: "int option"
  pd_speed :: "rat option"
  pd_message :: "string option"
  pd_stage :: "string option"
  pd_file_name :: "string option"
  pd_display_name :: "string option"

text \<open>
  What one poll request can do: \<open>fetch\<close> rejects; the response is not \<open>ok\<close>; the response
  is \<open>ok\<close> but \<open>json()\<close> rejects; or the body is parsed.
\<close>

datatype poll_outcome =
    FetchThrows js_exn
  | NotOk
  | JsonThrows js_exn
  | Ok ProgressData

text \<open>How one pass through the body of the \<open>while\<close> loop ends.\<close>

datatype completion = Normal | Broke IngestResponse | Threw js_exn

text \<open>The \<open>if (progressData.progress > lastProgress)\<close> block: forwarded events and the new \<open>lastProgress\<close>.\<close>

definition forwardProgress :: "ProgressData \<Rightarrow> int \<Rightarrow> UploadProgressInfo list \<times> int" where
  "forwardProgress pd lastProgress =
     (if pd_progress pd > lastProgress
      then ([\<lparr>progress = pd_progress pd,
              loaded = intOr0 (pd_loaded pd),
              total = intOr0 (pd_total pd),
              speed = ratOr0 (pd_speed pd),
              message = strOr (pd_message pd) ''Processing...''\<rparr>], pd_progress pd)
      else ([], lastProgress))"

text \<open>The two assignments to \<open>result\<close> made before \<open>break\<close>.\<close>

definition adoptFinal :: "ProgressData \<Rightarrow> IngestResponse \<Rightarrow> IngestResponse" where
  "adoptFinal pd result =
     (let r1 = (case pd_file_name pd of
                  None \<Rightarrow> result
                | Some v \<Rightarrow> if v \<noteq> [] then result\<lparr>file_name := v\<rparr> else result)
      in case pd_display_name pd of
           None \<Rightarrow> r1
         | Some v \<Rightarrow> if v \<noteq> [] then r1\<lparr>display_name := Some v\<rparr> else r1)"

text \<open>
  The \<open>try\<close> block of one iteration.  It yields the value of \<open>progressData\<close> when the
  block is left, the events forwarded, the new \<open>lastProgress\<close>, and how the block ended.
\<close>

definition tryBlock ::
  "poll_outcome \<Rightarrow> int \<Rightarrow> IngestResponse \<Rightarrow>
     ProgressData option \<times> UploadProgressInfo list \<times> int \<times> completion" where
  "tryBlock out lastProgress result =
     (case out of
        FetchThrows e \<Rightarrow> (None, [], lastProgress, Threw e)
      | NotOk \<Rightarrow> (None, [], lastProgress, Normal)
      | JsonThrows e \<Rightarrow> (None, [], lastProgress, Threw e)
      | Ok pd \<Rightarrow>
          (let (evs, lp) = forwardProgress pd lastProgress in
           if pd_progress pd \<ge> 100 \<or> pd_stage pd = Some ''complete''
           then (Some pd, evs, lp, Broke (adoptFinal pd result))
           else if pd_stage pd = Some ''error''
           then (Some pd, evs, lp, Threw (ErrorObj (strOr (pd_message pd) ''Upload failed'')))
           else (Some pd, evs, lp, Normal)))"

text \<open>The condition of the \<open>catch\<close> block under which the caught value is thrown again.\<close>

definition rethrows :: "ProgressData option \<Rightarrow> js_exn \<Rightarrow> bool" where
  "rethrows progressData err =
     ((case progressData of None \<Rightarrow> False | Some pd \<Rightarrow> pd_stage pd = Some ''error'')
      \<or> (case err of ErrorObj m \<Rightarrow> m \<noteq> ''Failed to fetch'' | NonError \<Rightarrow> False))"

text \<open>One iteration: \<open>try\<close> followed by \<open>catch\<close>.\<close>

definition iteration ::
  "poll_outcome \<Rightarrow> int \<Rightarrow> IngestResponse \<Rightarrow> UploadProgressInfo list \<times> int \<times> completion" where
  "iteration out lastProgress result =
     (case tryBlock out lastProgress result of
        (pd, evs, lp, Threw e) \<Rightarrow> if rethrows pd e then (evs, lp, Threw e) else (evs, lp, Normal)
      | (pd, evs, lp, c) \<Rightarrow> (evs, lp, c))"

definition timeoutMessage :: string where
  "timeoutMessage = ''Upload timeout - video processing took too long''"

text \<open>
  The \<open>while (attempts < maxAttempts)\<close> loop together with the check that follows it.
  \<open>server k\<close> is what the \<open>k\<close>-th poll request (counted from 0) does.  The result is the
  list of events forwarded to \<open>onProgress\<close>, the number of poll requests issued, and either
  the thrown value or the final \<open>result\<close>.  The source binds \<open>maxAttempts\<close> to 360 and
  starts with \<open>lastProgress = 5\<close> and \<open>attempts = 0\<close>, as \<open>ingestUrl\<close> below does; the
  2-second wait between polls is not modelled.
\<close>

function pollLoop ::
  "nat \<Rightarrow> (nat \<Rightarrow> poll_outcome) \<Rightarrow> int \<Rightarrow> nat \<Rightarrow> IngestResponse \<Rightarrow>
     UploadProgressInfo list \<times> nat \<times> (js_exn + IngestResponse)" where
  "pollLoop maxAttempts server lastProgress attempts result =
     (if attempts < maxAttempts then
        (case iteration (server attempts) lastProgress result of
           (evs, lp, Broke r) \<Rightarrow> (evs, 1, Inr r)
         | (evs, lp, Threw e) \<Rightarrow> (evs, 1, Inl e)
         | (evs, lp, Normal) \<Rightarrow>
             (case pollLoop maxAttempts server lp (Suc attempts) result of
                (evs', n, res) \<Rightarrow> (evs @ evs', Suc n, res)))
      else ([], 0, Inl (ErrorObj timeoutMessage)))"
  by pat_completeness auto
termination
  by (relation "measure (\<lambda>(maxAttempts, server, lastProgress, attempts, result). maxAttempts - attempts)") auto

declare pollLoop.simps [simp del]

text \<open>What the initial \<open>POST /api/ingest\<close> can do.\<close>

datatype init_outcome =
    InitFetchThrows js_exn
  | InitNotOk "string option option"
  | InitJsonThrows js_exn
  | InitOk IngestResponse

definition initialUrlEvent :: UploadProgressInfo where
  "initialUrlEvent = \<lparr>progress = 5, loaded = 0, total = 0, speed = 0,
                       message = ''Initiating URL download...''\<rparr>"

definition finalUrlEvent :: UploadProgressInfo where
  "finalUrlEvent = \<lparr>progress = 100, loaded = 0, total = 0, speed = 0,
                     message = ''Video processed successfully!''\<rparr>"

text \<open>
  \<open>ingestUrl(url, onProgress)\<close>.  The first argument says whether \<open>onProgress\<close> was
  passed; the URL only travels in the request body, whose effect is \<open>init\<close>.  For a
  response that is not \<open>ok\<close>, \<open>InitNotOk None\<close> is a body that is not JSON and
  \<open>InitNotOk (Some d)\<close> a JSON body whose \<open>detail\<close> is \<open>d\<close>.  The result is the events
  handed to \<open>onProgress\<close>, the number of poll requests issued, and the thrown value or
  the returned response.
\<close>

definition ingestUrl ::
  "bool \<Rightarrow> init_outcome \<Rightarrow> (nat \<Rightarrow> poll_outcome) \<Rightarrow>
     UploadProgressInfo list \<times> nat \<times> (js_exn + IngestResponse)" where
  "ingestUrl onProgress init server =
     (let first = (if onProgress then [initialUrlEvent] else []) in
      case init of
        InitFetchThrows e \<Rightarrow> (first, 0, Inl e)
      | InitNotOk body \<Rightarrow>
          (first, 0, Inl (ErrorObj
             (case body of None \<Rightarrow> ''URL ingestion failed''
                         | Some d \<Rightarrow> strOr d ''Network response was not ok'')))
      | InitJsonThrows e \<Rightarrow> (first, 0, Inl e)
      | InitOk result \<Rightarrow>
          (if truthy (upload_id result) \<and> onProgress then
             (case pollLoop 360 server 5 0 result of
                (evs, n, Inl e) \<Rightarrow> (first @ evs, n, Inl e)
              | (evs, n, Inr r) \<Rightarrow> (first @ evs @ [finalUrlEvent], n, Inr r))
           else (first @ (if onProgress then [finalUrlEvent] else []), 0, Inr result)))"

section \<open>Upload channel: \<open>ingestFile\<close>\<close>

text \<open>\<open>Math.round\<close>: the nearest integer, halves rounded up.\<close>

definition jsRound :: "rat \<Rightarrow> int" where
  "jsRound x = \<lfloor>x + 1 / 2\<rfloor>"

text \<open>Decimal digits of a natural number (\<open>String(n)\<close> for an integer below \<open>10^21\<close>).\<close>

fun showNat :: "nat \<Rightarrow> string" where
  "showNat n = (if n < 10 then [''0123456789'' ! n]
                else showNat (n div 10) @ [''0123456789'' ! (n mod 10)])"

declare showNat.simps [simp del]

definition showInt :: "int \<Rightarrow> string" where
  "showInt i = (if i < 0 then CHR ''-'' # showNat (nat (- i)) else showNat (nat i))"

text \<open>
  \<open>x.toFixed(d)\<close> for \<open>|x| < 10^21\<close>: the integer \<open>n\<close> with \<open>n / 10^d\<close> nearest to \<open>|x|\<close>
  (the larger one on a tie), printed with \<open>d\<close> decimals.
\<close>

definition toFixed :: "rat \<Rightarrow> nat \<Rightarrow> string" where
  "toFixed x d =
     (let n = nat \<lfloor>\<bar>x\<bar> * 10 ^ d + 1 / 2\<rfloor>;
          frac = showNat (n mod 10 ^ d);
          body = showNat (n div 10 ^ d) @
                 (if d = 0 then [] else ''.'' @ replicate (d - length frac) CHR ''0'' @ frac)
      in if x < 0 then CHR ''-'' # body else body)"

text \<open>The \<open>message\<close> string built by the upload progress handler.\<close>

definition progressMessage :: "int \<Rightarrow> int \<Rightarrow> rat \<Rightarrow> string" where
  "progressMessage ld tot spd =
     (let loadedMB = of_int ld / (1024 * 1024);
          totalMB = of_int tot / (1024 * 1024);
          speedMBps = spd / (1024 * 1024);
          base = ''Uploading: '' @ toFixed loadedMB 1 @ ''MB / '' @ toFixed totalMB 1 @ ''MB''
      in if spd > 0 \<and> ld < tot then
           (let remaining = of_int (tot - ld); eta = remaining / spd in
            base @ '' ('' @ toFixed speedMBps 2 @ '' MB/s)'' @
            (if eta < 60 then '' - '' @ showInt \<lceil>eta\<rceil> @ ''s remaining''
             else if eta < 3600 then '' - '' @ showInt \<lceil>eta / 60\<rceil> @ ''m remaining''
             else '' - '' @ showInt \<lfloor>eta / 3600\<rfloor> @ ''h '' @
                  showInt \<lceil>(eta - 3600 * of_int \<lfloor>eta / 3600\<rfloor>) / 60\<rceil> @ ''m remaining''))
         else base)"

text \<open>The three variables captured by the handler: \<open>lastLoaded\<close>, \<open>lastTime\<close>, \<open>currentSpeed\<close>.\<close>

record SpeedTracker =
  lastLoaded :: int
  lastTime :: int
  currentSpeed :: rat

text \<open>
  One \<open>progress\<close> event of \<open>xhr.upload\<close>, together with the value \<open>Date.now()\<close> returns
  when the handler runs (milliseconds).
\<close>

record UploadSample =
  lengthComputable :: bool
  ev_loaded :: int
  ev_total :: int
  now :: int

definition smoothingFactor :: rat where
  "smoothingFactor = 3 / 10"

text \<open>
  \<open>percentComplete = Math.round((event.loaded / event.total) * 50)\<close>.  For
  \<open>ev_total = 0\<close> JavaScript computes \<open>NaN\<close> or \<open>Infinity\<close>, which \<open>int\<close> does not
  represent; statements about percent values assume \<open>ev_total > 0\<close>.
\<close>

definition percentComplete :: "UploadSample \<Rightarrow> int" where
  "percentComplete event = jsRound (of_int (ev_loaded event) / of_int (ev_total event) * 50)"

text \<open>
  \<open>xhr.upload.onprogress\<close>.  The first argument says whether \<open>onProgress\<close> was passed.
  The result is the updated tracker and the events handed to \<open>onProgress\<close> (none or one).
\<close>

definition onprogress ::
  "bool \<Rightarrow> SpeedTracker \<Rightarrow> UploadSample \<Rightarrow> SpeedTracker \<times> UploadProgressInfo list" where
  "onprogress onProgress s event =
     (if lengthComputable event \<and> onProgress then
        (let timeDiff = of_int (now event - lastTime s) / 1000;
             loadedDiff = ev_loaded event - lastLoaded s;
             s' = (if timeDiff \<ge> 1 / 10 then
                     (let instantSpeed = of_int loadedDiff / timeDiff in
                      \<lparr>lastLoaded = ev_loaded event,
                       lastTime = now event,
                       currentSpeed =
                         (if currentSpeed s = 0 then instantSpeed
                          else smoothingFactor * instantSpeed
                               + (1 - smoothingFactor) * currentSpeed s)\<rparr>)
                   else s)
         in (s', [\<lparr>progress = percentComplete event,
                    loaded = ev_loaded event,
                    total = ev_total event,
                    speed = currentSpeed s',
                    message = progressMessage (ev_loaded event) (ev_total event) (currentSpeed s')\<rparr>]))
      else (s, []))"

text \<open>The handler run over the upload's progress events, in order.\<close>

fun uploadProgressEvents ::
  "bool \<Rightarrow> SpeedTracker \<Rightarrow> UploadSample list \<Rightarrow> UploadProgressInfo list" where
  "uploadProgressEvents onProgress s [] = []"
| "uploadProgressEvents onProgress s (event # events) =
     (case onprogress onProgress s event of
        (s', out) \<Rightarrow> out @ uploadProgressEvents onProgress s' events)"

text \<open>The \<open>File\<close> being uploaded: only \<open>file.size\<close> is read.\<close>

record File =
  file_size :: nat

text \<open>
  The response seen by \<open>xhr.onload\<close>: the status, \<open>JSON.parse(xhr.responseText)\<close> read as an
  \<open>IngestResponse\<close> (\<open>None\<close> when parsing throws), and the same text read as an error body
  (\<open>None\<close> when parsing throws, otherwise its \<open>detail\<close>).
\<close>

record XhrResponse =
  xhr_status :: int
  parsedResult :: "IngestResponse option"
  parsedDetail :: "string option option"

datatype xhr_end = OnLoad XhrResponse | OnError

definition initialUploadEvent :: "File \<Rightarrow> UploadProgressInfo" where
  "initialUploadEvent file = \<lparr>progress = 0, loaded = 0, total = int (file_size file), speed = 0,
                              message = ''Starting upload...''\<rparr>"

definition finalUploadEvent :: "File \<Rightarrow> UploadProgressInfo" where
  "finalUploadEvent file = \<lparr>progress = 100, loaded = int (file_size file),
                            total = int (file_size file), speed = 0,
                            message = ''Upload complete!''\<rparr>"

text \<open>
  \<open>ingestFile(file, onProgress)\<close>: \<open>startTime\<close> is \<open>Date.now()\<close> when the request is
  created, \<open>events\<close> are the upload's progress events and \<open>fin\<close> is how the request ends.
  The result is the events handed to \<open>onProgress\<close> and the settled promise.
\<close>

definition ingestFile ::
  "File \<Rightarrow> bool \<Rightarrow> int \<Rightarrow> UploadSample list \<Rightarrow> xhr_end \<Rightarrow>
     UploadProgressInfo list \<times> (js_exn + IngestResponse)" where
  "ingestFile file onProgress startTime events fin =
     (let initial = (if onProgress \<and> file_size file \<noteq> 0 then [initialUploadEvent file] else []);
          transfer = uploadProgressEvents onProgress
                       \<lparr>lastLoaded = 0, lastTime = startTime, currentSpeed = 0\<rparr> events
      in case fin of
           OnError \<Rightarrow> (initial @ transfer, Inl (ErrorObj ''Network error''))
         | OnLoad resp \<Rightarrow>
             (if xhr_status resp \<ge> 200 \<and> xhr_status resp < 300 then
                (case parsedResult resp of
                   Some result \<Rightarrow>
                     (initial @ transfer @
                        (if onProgress \<and> file_size file \<noteq> 0 then [finalUploadEvent file] else []),
                      Inr result)
                 | None \<Rightarrow> (initial @ transfer, Inl (ErrorObj ''Failed to parse response'')))
              else
                (initial @ transfer,
                 Inl (ErrorObj (case parsedDetail resp of
                                  None \<Rightarrow> ''Upload failed''
                                | Some d \<Rightarrow> strOr d ''Upload failed'')))))"

section \<open>Coordinator: the \<open>App\<close> component\<close>

text \<open>\<open>enum UploadStatus\<close> (types.ts).\<close>

datatype UploadStatus = IDLE | UPLOADING | PROCESSING | SUCCESS | ERROR

datatype Tab = FileTab | UrlTab

record QAHistoryItem =
  qa_role :: string
  qa_text :: string

text \<open>
  The state variables of \<open>App\<close> that the ingest handlers read or write
  (\<open>chosenFile\<close> is the state variable \<open>file\<close>).
\<close>

record AppState =
  activeTab :: Tab
  chosenFile :: "File option"
  url :: string
  uploadStatus :: UploadStatus
  uploadedFileName :: "string option"
  originalFileName :: string
  errorMessage :: string
  uploadProgress :: int
  uploadMessage :: string
  summaryResult :: string
  qaResult :: string
  qaHistory :: "QAHistoryItem list"
  showHistory :: bool

text \<open>\<open>handleSelectFromHistory(fileName, displayName?)\<close>.\<close>

definition handleSelectFromHistory :: "string \<Rightarrow> string option \<Rightarrow> AppState \<Rightarrow> AppState" where
  "handleSelectFromHistory fileName displayName st =
     st\<lparr>uploadedFileName := Some fileName,
        originalFileName := strOr displayName fileName,
        uploadStatus := SUCCESS,
        showHistory := False,
        summaryResult := [],
        qaResult := [],
        qaHistory := []\<rparr>"

text \<open>
  What \<open>IngestSection\<close> renders in its error line: nothing unless the status is \<open>ERROR\<close>,
  and then \<open>errorMessage || t.errorIngest\<close>.
\<close>

definition displayedError :: "string \<Rightarrow> AppState \<Rightarrow> string option" where
  "displayedError errorIngest st =
     (if uploadStatus st = ERROR then Some (strOr (Some (errorMessage st)) errorIngest) else None)"

text \<open>The \<open>onProgress\<close> callback created by \<open>handleIngest\<close>.\<close>

definition onProgressCallback :: "AppState \<Rightarrow> UploadProgressInfo \<Rightarrow> AppState" where
  "onProgressCallback st info =
     (let st1 = st\<lparr>uploadProgress := progress info, uploadMessage := message info\<rparr>
      in if progress info \<ge> 40 then st1\<lparr>uploadStatus := PROCESSING\<rparr> else st1)"

text \<open>A call made to one of the two channels.\<close>

datatype channel_call = CallIngestFile File | CallIngestUrl string

text \<open>The \<open>catch\<close> block of \<open>handleIngest\<close>.\<close>

definition onFailure :: "js_exn \<Rightarrow> AppState \<Rightarrow> AppState" where
  "onFailure err st =
     st\<lparr>uploadStatus := ERROR,
        errorMessage := (case err of ErrorObj m \<Rightarrow> m | NonError \<Rightarrow> ''Unknown error''),
        uploadProgress := 0\<rparr>"

text \<open>The statements after the \<open>await\<close> when the channel resolves.\<close>

definition onSuccess :: "IngestResponse \<Rightarrow> AppState \<Rightarrow> AppState" where
  "onSuccess response st =
     st\<lparr>uploadedFileName := Some (file_name response),
        originalFileName := strOr (display_name response) (file_name response),
        uploadStatus := SUCCESS,
        uploadProgress := 100,
        uploadMessage := ''Upload complete!''\<rparr>"

text \<open>
  \<open>handleIngest\<close>.  The two channels are given by what a call to them does: the events they
  hand to \<open>onProgress\<close> and how their promise settles.  The result is the state once the
  handler has finished and the channel calls it made, in order.
\<close>

definition handleIngest ::
  "(File \<Rightarrow> UploadProgressInfo list \<times> (js_exn + IngestResponse)) \<Rightarrow>
   (string \<Rightarrow> UploadProgressInfo list \<times> (js_exn + IngestResponse)) \<Rightarrow>
   AppState \<Rightarrow> AppState \<times> channel_call list" where
  "handleIngest fileChannel urlChannel st =
     (let st0 = st\<lparr>uploadStatus := UPLOADING, errorMessage := [], summaryResult := [],
                   qaResult := [], qaHistory := [], uploadProgress := 0, uploadMessage := []\<rparr>;
          settle = (\<lambda>s (evs, res).
                      (let s' = foldl onProgressCallback s evs in
                       case res of Inl err \<Rightarrow> onFailure err s' | Inr response \<Rightarrow> onSuccess response s'))
      in if activeTab st = FileTab then
           (case chosenFile st of
              None \<Rightarrow> (st0, [])
            | Some f \<Rightarrow> (settle st0 (fileChannel f), [CallIngestFile f]))
         else
           (if url st = [] then (st0, [])
            else (settle (st0\<lparr>uploadStatus := PROCESSING\<rparr>) (urlChannel (url st)),
                  [CallIngestUrl (url st)])))"

section \<open>Predicates and sample values used in the statements\<close>

text \<open>
  A poll after which the loop goes on to the next attempt: a parsed status below 100 whose
  stage is neither \<open>complete\<close> nor \<open>error\<close>, a response that is not \<open>ok\<close>, or a rejected
  request that the \<open>catch\<close> block does not throw again.
\<close>

definition nonTerminal :: "poll_outcome \<Rightarrow> bool" where
  "nonTerminal out =
     (case out of
        FetchThrows e \<Rightarrow> \<not> rethrows None e
      | NotOk \<Rightarrow> True
      | JsonThrows e \<Rightarrow> \<not> rethrows None e
      | Ok pd \<Rightarrow> pd_progress pd < 100 \<and> pd_stage pd \<noteq> Some ''complete''
                 \<and> pd_stage pd \<noteq> Some ''error'')"

text \<open>A status body carrying only \<open>progress\<close>, \<open>stage\<close> and \<open>message\<close>.\<close>

definition pollBody :: "int \<Rightarrow> string option \<Rightarrow> string option \<Rightarrow> ProgressData" where
  "pollBody p stage msg =
     \<lparr>pd_progress = p, pd_loaded = None, pd_total = None, pd_speed = None, pd_message = msg,
      pd_stage = stage, pd_file_name = None, pd_display_name = None\<rparr>"

text \<open>An initial response that carries a job handle.\<close>

definition jobAccepted :: IngestResponse where
  "jobAccepted = \<lparr>file_name = ''files/pending'', status = ''processing'',
                   upload_id = Some ''job-1'', display_name = None\<rparr>"

text \<open>
  How \<open>handleIngest\<close> calls the channels: always with its \<open>onProgress\<close> callback.  The
  remaining arguments say what the network does during the call.
\<close>

definition fileChannelRun ::
  "int \<Rightarrow> UploadSample list \<Rightarrow> xhr_end \<Rightarrow> File \<Rightarrow>
     UploadProgressInfo list \<times> (js_exn + IngestResponse)" where
  "fileChannelRun startTime events fin f = ingestFile f True startTime events fin"

definition urlChannelRun ::
  "init_outcome \<Rightarrow> (nat \<Rightarrow> poll_outcome) \<Rightarrow> string \<Rightarrow>
     UploadProgressInfo list \<times> (js_exn + IngestResponse)" where
  "urlChannelRun init server u =
     (case ingestUrl True init server of (evs, n, res) \<Rightarrow> (evs, res))"

text \<open>
  The Transfer Meter in the words of the specification, on the smoothed rate (bytes per
  second) and the retained sample \<open>(t0, b0)\<close>, times in milliseconds: a sample less than
  100 ms after the retained one changes nothing; otherwise the instantaneous rate is the
  byte difference over the elapsed time, the smoothed rate is that rate if the previous
  rate was 0 and \<open>0.3 * instantRate + 0.7 * rate\<close> otherwise, and the sample is retained.
\<close>

definition meterSpec :: "rat \<times> int \<times> int \<Rightarrow> int \<times> int \<Rightarrow> rat \<times> int \<times> int" where
  "meterSpec m sample =
     (case m of (rate, t0, b0) \<Rightarrow>
      case sample of (t1, b1) \<Rightarrow>
        if t1 - t0 < 100 then (rate, t0, b0)
        else (let instantRate = of_int (b1 - b0) / (of_int (t1 - t0) / 1000)
              in (if rate = 0 then instantRate else 3 / 10 * instantRate + 7 / 10 * rate,
                  t1, b1)))"

text \<open>Sample values: a file of 1000 bytes, a successful response, and the initial state.\<close>

definition sampleFile :: File where
  "sampleFile = \<lparr>file_size = 1000\<rparr>"

definition uploaded :: IngestResponse where
  "uploaded = \<lparr>file_name = ''files/abc'', status = ''success'', upload_id = None,
                display_name = Some ''clip.mp4''\<rparr>"

definition okResponse :: xhr_end where
  "okResponse = OnLoad \<lparr>xhr_status = 200, parsedResult = Some uploaded, parsedDetail = None\<rparr>"

definition idleApp :: AppState where
  "idleApp = \<lparr>activeTab = FileTab, chosenFile = None, url = [], uploadStatus = IDLE,
               uploadedFileName = None, originalFileName = [], errorMessage = [],
               uploadProgress = 0, uploadMessage = [], summaryResult = [], qaResult = [],
               qaHistory = [], showHistory = False\<rparr>"

section \<open>The poll loop\<close>

lemmas poll_eval = iteration_def tryBlock_def forwardProgress_def rethrows_def adoptFinal_def
  strOr_def intOr0_def ratOr0_def truthy_def pollBody_def jobAccepted_def
  initialUrlEvent_def finalUrlEvent_def timeoutMessage_def

lemma forwardProgress_cases:
  "forwardProgress pd lp = (evs, lp') \<Longrightarrow>
     (evs = [] \<and> lp' = lp) \<or>
     (\<exists>e. evs = [e] \<and> progress e = pd_progress pd \<and> lp' = pd_progress pd \<and> lp < pd_progress pd)"
  by (auto simp: forwardProgress_def split: if_splits)

lemma tryBlock_events:
  "tryBlock out lp result = (pdo, evs, lp', c) \<Longrightarrow>
     (evs = [] \<and> lp' = lp) \<or>
     (\<exists>e pd. out = Ok pd \<and> evs = [e] \<and> progress e = pd_progress pd
        \<and> lp' = pd_progress pd \<and> lp < lp')"
  by (cases out) (auto simp: tryBlock_def split: prod.splits if_splits dest: forwardProgress_cases)

lemma iteration_events:
  "iteration out lp result = (evs, lp', c) \<Longrightarrow>
     (evs = [] \<and> lp' = lp) \<or>
     (\<exists>e pd. out = Ok pd \<and> evs = [e] \<and> progress e = pd_progress pd
        \<and> lp' = pd_progress pd \<and> lp < lp')"
  unfolding iteration_def
  by (auto split: prod.splits completion.splits if_splits dest!: tryBlock_events)

lemma iteration_nonTerminal:
  "nonTerminal out \<Longrightarrow> \<exists>evs lp'. iteration out lp result = (evs, lp', Normal)"
  by (cases out) (auto simp: nonTerminal_def iteration_def tryBlock_def rethrows_def
        split: prod.splits if_splits js_exn.splits)

lemma iteration_error_stage:
  "pd_stage pd = Some ''error'' \<Longrightarrow> pd_progress pd < 100 \<Longrightarrow>
   \<exists>evs lp'. iteration (Ok pd) lp result =
      (evs, lp', Threw (ErrorObj (strOr (pd_message pd) ''Upload failed'')))"
  by (auto simp: iteration_def tryBlock_def rethrows_def split: prod.splits)

text \<open>With only non-terminal polls left, the loop uses up its budget and times out.\<close>

lemma pollLoop_timeout_gen:
  "(\<forall>k. attempts \<le> k \<and> k < maxAttempts \<longrightarrow> nonTerminal (server k)) \<Longrightarrow>
   fst (snd (pollLoop maxAttempts server lastProgress attempts result)) = maxAttempts - attempts \<and>
   snd (snd (pollLoop maxAttempts server lastProgress attempts result))
     = Inl (ErrorObj timeoutMessage)"
proof (induction maxAttempts server lastProgress attempts result rule: pollLoop.induct)
  case (1 maxAttempts server lastProgress attempts result)
  show ?case
  proof (cases "attempts < maxAttempts")
    case False
    then show ?thesis by (simp add: pollLoop.simps)
  next
    case True
    with 1(2) have "nonTerminal (server attempts)" by simp
    then obtain evs lp' where
      it: "iteration (server attempts) lastProgress result = (evs, lp', Normal)"
      using iteration_nonTerminal by blast
    have "\<forall>k. Suc attempts \<le> k \<and> k < maxAttempts \<longrightarrow> nonTerminal (server k)"
      using 1(2) by simp
    from 1(1)[OF True it[symmetric] refl refl this] True it
    show ?thesis
      by (subst (1 2) pollLoop.simps) (auto split: prod.splits)
  qed
qed

text \<open>The first error stage below 100 ends the loop at that very poll.\<close>

lemma pollLoop_error_gen:
  "attempts \<le> k \<Longrightarrow> k < maxAttempts \<Longrightarrow>
   (\<forall>j. attempts \<le> j \<and> j < k \<longrightarrow> nonTerminal (server j)) \<Longrightarrow>
   server k = Ok pd \<Longrightarrow> pd_stage pd = Some ''error'' \<Longrightarrow> pd_progress pd < 100 \<Longrightarrow>
   fst (snd (pollLoop maxAttempts server lastProgress attempts result)) = Suc (k - attempts) \<and>
   snd (snd (pollLoop maxAttempts server lastProgress attempts result))
     = Inl (ErrorObj (strOr (pd_message pd) ''Upload failed''))"
proof (induction maxAttempts server lastProgress attempts result rule: pollLoop.induct)
  case (1 maxAttempts server lastProgress attempts result)
  from 1(2,3) have lt: "attempts < maxAttempts" by simp
  show ?case
  proof (cases "attempts = k")
    case True
    obtain evs lp' where "iteration (server attempts) lastProgress result =
        (evs, lp', Threw (ErrorObj (strOr (pd_message pd) ''Upload failed'')))"
      using iteration_error_stage[OF 1(6,7)] 1(5) True by metis
    with lt True show ?thesis
      by (subst (1 2) pollLoop.simps) simp
  next
    case False
    with 1(2) have le: "Suc attempts \<le> k" by simp
    from 1(4) False 1(2) have "nonTerminal (server attempts)" by simp
    then obtain evs lp' where
      it: "iteration (server attempts) lastProgress result = (evs, lp', Normal)"
      using iteration_nonTerminal by blast
    have rest: "\<forall>j. Suc attempts \<le> j \<and> j < k \<longrightarrow> nonTerminal (server j)"
      using 1(4) by simp
    from 1(1)[OF lt it[symmetric] refl refl le 1(3) rest 1(5,6,7)] lt it le
    show ?thesis
      by (subst (1 2) pollLoop.simps) (auto split: prod.splits simp: Suc_diff_le)
  qed
qed

text \<open>Each forwarded percent value exceeds the one forwarded before it.\<close>

lemma pollLoop_strictly_increasing:
  "sorted_wrt (<)
     (lastProgress # map progress (fst (pollLoop maxAttempts server lastProgress attempts result)))"
proof (induction maxAttempts server lastProgress attempts result rule: pollLoop.induct)
  case (1 maxAttempts server lastProgress attempts result)
  show ?case
  proof (cases "attempts < maxAttempts")
    case False
    then show ?thesis by (simp add: pollLoop.simps)
  next
    case True
    obtain evs lp' c where it: "iteration (server attempts) lastProgress result = (evs, lp', c)"
      by (metis prod_cases3)
    note ev = iteration_events[OF it]
    show ?thesis
    proof (cases c)
      case Normal
      note ih = 1(1)[OF True it[symmetric] refl Normal]
      from ev ih True it Normal show ?thesis
        by (subst pollLoop.simps) (fastforce split: prod.splits)
    next
      case (Broke r)
      with ev True it show ?thesis
        by (subst pollLoop.simps) auto
    next
      case (Threw e)
      with ev True it show ?thesis
        by (subst pollLoop.simps) auto
    qed
  qed
qed

text \<open>
  \<^bold>\<open>C3\<close> (as amended).  If the polls before poll \<open>k\<close> (counted from 0) are
  non-terminal and poll \<open>k\<close> carries stage \<open>error\<close> and a progress value below 100, then
  \<open>ingestUrl\<close> fails at that poll: exactly \<open>k + 1\<close> poll requests have been issued, and
  the error message is the message of that response, or \<open>Upload failed\<close> when the response
  has no message or an empty one.
\<close>

theorem error_stage_fails_immediately:
  assumes "truthy (upload_id result)" and "k < 360"
      and "\<forall>j<k. nonTerminal (server j)"
      and "server k = Ok pd" and "pd_stage pd = Some ''error''" and "pd_progress pd < 100"
  shows "\<exists>evs. ingestUrl True (InitOk result) server =
           (evs, Suc k,
            Inl (ErrorObj (case pd_message pd of
                             None \<Rightarrow> ''Upload failed''
                           | Some m \<Rightarrow> if m = [] then ''Upload failed'' else m)))"
proof -
  have "fst (snd (pollLoop 360 server 5 0 result)) = Suc (k - 0) \<and>
        snd (snd (pollLoop 360 server 5 0 result))
          = Inl (ErrorObj (strOr (pd_message pd) ''Upload failed''))"
    using assms by (intro pollLoop_error_gen) auto
  then obtain evs where "pollLoop 360 server 5 0 result
      = (evs, Suc k, Inl (ErrorObj (strOr (pd_message pd) ''Upload failed'')))"
    by (cases "pollLoop 360 server 5 0 result") auto
  with assms(1) show ?thesis
    by (simp add: ingestUrl_def strOr_def)
qed

text \<open>
  The server of the specification's test: two running polls, then stage \<open>error\<close> with the
  message \<open>quota exceeded\<close>.  The call fails with that message after three polls.
\<close>

theorem error_stage_fails_immediately_witness:
  "\<exists>evs. ingestUrl True (InitOk jobAccepted)
      (\<lambda>k. if k < 2 then Ok (pollBody 10 (Some ''running'') None)
           else Ok (pollBody 20 (Some ''error'') (Some ''quota exceeded'')))
     = (evs, 3, Inl (ErrorObj ''quota exceeded''))"
  using error_stage_fails_immediately [of jobAccepted 2
      "\<lambda>k. if k < 2 then Ok (pollBody 10 (Some ''running'') None)
           else Ok (pollBody 20 (Some ''error'') (Some ''quota exceeded''))"
      "pollBody 20 (Some ''error'') (Some ''quota exceeded'')"]
  by (simp add: nonTerminal_def poll_eval)

text \<open>
  \<^bold>\<open>C3\<close> as stated fails: a response with stage \<open>error\<close> whose progress is 100 is taken for
  a completion, because the completion test comes first; the call succeeds.  And an error
  response with an empty message fails with \<open>Upload failed\<close>, not with the empty message.
\<close>

theorem error_stage_with_full_progress_succeeds:
  "ingestUrl True (InitOk jobAccepted)
      (\<lambda>k. Ok (pollBody 100 (Some ''error'') (Some ''quota exceeded'')))
     = ([initialUrlEvent,
         \<lparr>progress = 100, loaded = 0, total = 0, speed = 0, message = ''quota exceeded''\<rparr>,
         finalUrlEvent], 1, Inr jobAccepted)
   \<and> ingestUrl True (InitOk jobAccepted) (\<lambda>k. Ok (pollBody 10 (Some ''error'') (Some [])))
     = ([initialUrlEvent,
         \<lparr>progress = 10, loaded = 0, total = 0, speed = 0, message = ''Processing...''\<rparr>],
        1, Inl (ErrorObj ''Upload failed''))"
  unfolding ingestUrl_def
  by (subst (1 2) pollLoop.simps) (simp add: poll_eval)

text \<open>
  \<^bold>\<open>C4\<close>.  With an attempt budget \<open>maxAttempts\<close> and a server whose first \<open>maxAttempts\<close>
  polls are all non-terminal, the loop issues exactly \<open>maxAttempts\<close> poll requests and then
  fails with the timeout error; \<open>ingestUrl\<close>, whose budget is 360, fails so after exactly
  360 polls.
\<close>

theorem poll_budget_exhausted:
  assumes "\<forall>k<maxAttempts. nonTerminal (server k)"
  shows "(\<exists>evs. pollLoop maxAttempts server lastProgress 0 result
            = (evs, maxAttempts, Inl (ErrorObj timeoutMessage))) \<and>
         (maxAttempts = 360 \<and> truthy (upload_id result) \<longrightarrow>
            (\<exists>evs. ingestUrl True (InitOk result) server
               = (evs, 360, Inl (ErrorObj timeoutMessage))))"
proof -
  have "fst (snd (pollLoop maxAttempts server lp 0 result)) = maxAttempts - 0 \<and>
        snd (snd (pollLoop maxAttempts server lp 0 result)) = Inl (ErrorObj timeoutMessage)" for lp
    using assms by (intro pollLoop_timeout_gen) auto
  then have *: "\<exists>evs. pollLoop maxAttempts server lp 0 result
       = (evs, maxAttempts, Inl (ErrorObj timeoutMessage))" for lp
    by (cases "pollLoop maxAttempts server lp 0 result") (metis diff_zero fst_conv snd_conv)
  show ?thesis
  proof (intro conjI impI)
    show "\<exists>evs. pollLoop maxAttempts server lastProgress 0 result
            = (evs, maxAttempts, Inl (ErrorObj timeoutMessage))" by (rule *)
  next
    assume a: "maxAttempts = 360 \<and> truthy (upload_id result)"
    from *[of 5] a obtain evs where "pollLoop 360 server 5 0 result
       = (evs, 360, Inl (ErrorObj timeoutMessage))" by auto
    with a show "\<exists>evs. ingestUrl True (InitOk result) server
               = (evs, 360, Inl (ErrorObj timeoutMessage))"
      by (simp add: ingestUrl_def)
  qed
qed

text \<open>
  A server that reports \<open>running\<close> at 10 percent for ever: with a budget of three the
  loop times out after three polls, and \<open>ingestUrl\<close> times out after 360.
\<close>

theorem poll_budget_exhausted_witness:
  "fst (snd (pollLoop 3 (\<lambda>k. Ok (pollBody 10 (Some ''running'') None)) 5 0 jobAccepted)) = 3 \<and>
   snd (snd (pollLoop 3 (\<lambda>k. Ok (pollBody 10 (Some ''running'') None)) 5 0 jobAccepted))
     = Inl (ErrorObj ''Upload timeout - video processing took too long'') \<and>
   fst (snd (ingestUrl True (InitOk jobAccepted)
               (\<lambda>k. Ok (pollBody 10 (Some ''running'') None)))) = 360 \<and>
   snd (snd (ingestUrl True (InitOk jobAccepted)
               (\<lambda>k. Ok (pollBody 10 (Some ''running'') None))))
     = Inl (ErrorObj ''Upload timeout - video processing took too long'')"
proof -
  have h: "\<forall>k<n. nonTerminal ((\<lambda>k. Ok (pollBody 10 (Some ''running'') None)) k)" for n :: nat
    by (simp add: nonTerminal_def pollBody_def)
  have job: "truthy (upload_id jobAccepted)"
    by (simp add: truthy_def jobAccepted_def)
  from poll_budget_exhausted [OF h [of 3], of 5 jobAccepted]
       poll_budget_exhausted [OF h [of 360], of 5 jobAccepted] job
  show ?thesis
    by (auto simp: timeoutMessage_def)
qed

text \<open>
  \<^bold>\<open>C5\<close>.  The percent values forwarded by the poll loop, preceded by the 5 of the initial
  event, are strictly increasing: a response is forwarded only when its progress exceeds
  that of the last forwarded event.  A server that reports 10 on the first two polls (and
  completes on the third) has its 10 forwarded once.
\<close>

theorem forwarded_progress_strictly_increases:
  "sorted_wrt (<) (5 # map progress (fst (pollLoop maxAttempts server 5 0 result))) \<and>
   fst (ingestUrl True (InitOk jobAccepted)
          (\<lambda>k. if k < 2 then Ok (pollBody 10 (Some ''running'') None)
               else Ok (pollBody 100 (Some ''complete'') None)))
     = [initialUrlEvent,
        \<lparr>progress = 10, loaded = 0, total = 0, speed = 0, message = ''Processing...''\<rparr>,
        \<lparr>progress = 100, loaded = 0, total = 0, speed = 0, message = ''Processing...''\<rparr>,
        finalUrlEvent]"
proof
  show "sorted_wrt (<) (5 # map progress (fst (pollLoop maxAttempts server 5 0 result)))"
    by (rule pollLoop_strictly_increasing)
next
  show "fst (ingestUrl True (InitOk jobAccepted)
          (\<lambda>k. if k < 2 then Ok (pollBody 10 (Some ''running'') None)
               else Ok (pollBody 100 (Some ''complete'') None)))
     = [initialUrlEvent,
        \<lparr>progress = 10, loaded = 0, total = 0, speed = 0, message = ''Processing...''\<rparr>,
        \<lparr>progress = 100, loaded = 0, total = 0, speed = 0, message = ''Processing...''\<rparr>,
        finalUrlEvent]"
    unfolding ingestUrl_def
    apply (subst pollLoop.simps, simp add: poll_eval)
    apply (subst pollLoop.simps, simp add: poll_eval)
    apply (subst pollLoop.simps, simp add: poll_eval)
    done
qed




text \<open>
  \<^bold>\<open>C10\<close>.  When \<open>ingestUrl\<close>, called with \<open>onProgress\<close>, returns a result, the last event
  it emitted has percent 100.  When the initial response has no \<open>upload_id\<close>, the events are
  exactly the initial one (percent 5) and the final one (percent 100), and no poll request
  is issued.
\<close>

theorem url_success_ends_at_100:
  "(ingestUrl True init server = (evs, n, Inr r) \<longrightarrow> evs \<noteq> [] \<and> progress (last evs) = 100)
   \<and> (\<not> truthy (upload_id result) \<longrightarrow>
        ingestUrl True (InitOk result) server' = ([initialUrlEvent, finalUrlEvent], 0, Inr result))
   \<and> progress initialUrlEvent = 5 \<and> progress finalUrlEvent = 100"
  by (auto simp: ingestUrl_def Let_def initialUrlEvent_def finalUrlEvent_def
        split: init_outcome.splits if_splits prod.splits sum.splits)

text \<open>
  A backend that completes at once, and one that hands out a job and completes on the
  first poll.
\<close>

theorem url_success_ends_at_100_witness:
  "ingestUrl True (InitOk uploaded) (\<lambda>k. NotOk)
     = ([initialUrlEvent, finalUrlEvent], 0, Inr uploaded)
   \<and> progress (last (fst (ingestUrl True (InitOk jobAccepted)
        (\<lambda>k. Ok (pollBody 100 (Some ''complete'') None))))) = 100"
proof -
  have run: "ingestUrl True (InitOk jobAccepted) (\<lambda>k. Ok (pollBody 100 (Some ''complete'') None))
     = ([initialUrlEvent,
         \<lparr>progress = 100, loaded = 0, total = 0, speed = 0, message = ''Processing...''\<rparr>,
         finalUrlEvent], 1, Inr jobAccepted)"
    unfolding ingestUrl_def
    by (subst pollLoop.simps) (simp add: poll_eval)
  have nojob: "\<not> truthy (upload_id uploaded)"
    by (simp add: truthy_def uploaded_def)
  from url_success_ends_at_100
         [where init = "InitOk jobAccepted"
            and server = "\<lambda>k. Ok (pollBody 100 (Some ''complete'') None)"
            and evs = "[initialUrlEvent,
               \<lparr>progress = 100, loaded = 0, total = 0, speed = 0, message = ''Processing...''\<rparr>,
               finalUrlEvent]"
            and n = 1 and r = jobAccepted and result = uploaded and server' = "\<lambda>k. NotOk"]
    run nojob
  show ?thesis by simp
qed

section \<open>The upload channel\<close>

lemma timeDiff_gate: "((1::rat) / 10 \<le> of_int d / 1000) = (\<not> d < 100)"
proof -
  have "((1::rat) / 10 \<le> of_int d / 1000) = ((100::rat) \<le> of_int d)"
    by (simp add: field_simps)
  also have "\<dots> = (100 \<le> d)"
    by (metis of_int_le_iff of_int_numeral)
  finally show ?thesis by auto
qed

lemma onprogress_progress:
  "map progress (snd (onprogress True s e)) = (if lengthComputable e then [percentComplete e] else [])"
  by (simp add: onprogress_def Let_def)

lemma onprogress_nocb: "snd (onprogress False s e) = []"
  by (simp add: onprogress_def)

lemma uploadProgressEvents_progress:
  "map progress (uploadProgressEvents True s events)
     = map percentComplete (filter lengthComputable events)"
proof (induction events arbitrary: s)
  case Nil
  show ?case by simp
next
  case (Cons e es)
  obtain s' out where o: "onprogress True s e = (s', out)" by (cases "onprogress True s e")
  with onprogress_progress[of s e]
  have "map progress out = (if lengthComputable e then [percentComplete e] else [])"
    by simp
  with o Cons show ?case by simp
qed

lemma uploadProgressEvents_nocb: "uploadProgressEvents False s events = []"
proof (induction events arbitrary: s)
  case Nil
  show ?case by simp
next
  case (Cons e es)
  obtain s' out where o: "onprogress False s e = (s', out)" by (cases "onprogress False s e")
  with onprogress_nocb[of s e] have "out = []" by simp
  with o Cons show ?case by simp
qed

lemma jsRound_mono: "x \<le> y \<Longrightarrow> jsRound x \<le> jsRound y"
  unfolding jsRound_def by (intro floor_mono) simp

lemma percentComplete_bounds:
  assumes "0 \<le> ev_loaded e" "ev_loaded e \<le> ev_total e" "0 < ev_total e"
  shows "0 \<le> percentComplete e \<and> percentComplete e \<le> 50"
proof -
  let ?x = "(of_int (ev_loaded e) :: rat) / of_int (ev_total e)"
  from assms have x0: "0 \<le> ?x" by simp
  from assms have x1: "?x \<le> 1" by (simp add: divide_le_eq_1)
  have lo: "0 \<le> ?x * 50" by (rule mult_nonneg_nonneg[OF x0]) simp
  have "?x * 50 \<le> 1 * 50" by (rule mult_right_mono[OF x1]) simp
  then have hi: "?x * 50 \<le> 50" by simp
  have "jsRound 0 \<le> jsRound (?x * 50)" by (rule jsRound_mono[OF lo])
  moreover have "jsRound (?x * 50) \<le> jsRound 50" by (rule jsRound_mono[OF hi])
  moreover have "jsRound 0 = 0" "jsRound 50 = 50"
    by (simp_all add: jsRound_def floor_eq_iff)
  ultimately show ?thesis by (simp add: percentComplete_def)
qed

lemma percentComplete_mono:
  assumes "ev_total a = T" "ev_total b = T" "0 < T" "ev_loaded a \<le> ev_loaded b"
  shows "percentComplete a \<le> percentComplete b"
proof -
  have le: "(of_int (ev_loaded a) :: rat) \<le> of_int (ev_loaded b)"
    using assms(4) by simp
  have T0: "(0::rat) \<le> of_int T" using assms(3) by simp
  have "(of_int (ev_loaded a) :: rat) / of_int T \<le> of_int (ev_loaded b) / of_int T"
    by (rule divide_right_mono[OF le T0])
  then have "(of_int (ev_loaded a) :: rat) / of_int T * 50 \<le> of_int (ev_loaded b) / of_int T * 50"
    by (rule mult_right_mono) simp
  then show ?thesis
    unfolding percentComplete_def assms(1,2) by (rule jsRound_mono)
qed

lemma sorted_percentComplete:
  assumes "0 < T" "\<forall>e\<in>set events. ev_total e = T" "sorted (map ev_loaded events)"
  shows "sorted (map percentComplete (filter lengthComputable events))"
proof -
  have "sorted_wrt (\<lambda>a b. ev_loaded a \<le> ev_loaded b) events"
    using assms(3) by (simp add: sorted_map)
  then have "sorted_wrt (\<lambda>a b. percentComplete a \<le> percentComplete b) events"
    by (rule sorted_wrt_mono_rel[rotated]) (use assms in \<open>auto intro: percentComplete_mono\<close>)
  then have "sorted_wrt (\<lambda>a b. percentComplete a \<le> percentComplete b)
               (filter lengthComputable events)"
    by (rule sorted_wrt_filter)
  then show ?thesis by (simp add: sorted_map)
qed

lemma ingestFile_events:
  "\<exists>res. ingestFile f onProgress t0 events fin =
     ((if onProgress \<and> file_size f \<noteq> 0 then [initialUploadEvent f] else []) @
      uploadProgressEvents onProgress \<lparr>lastLoaded = 0, lastTime = t0, currentSpeed = 0\<rparr> events @
      (if onProgress \<and> file_size f \<noteq> 0 \<and> (\<exists>r. res = Inr r) then [finalUploadEvent f] else []),
      res)"
  by (auto simp: ingestFile_def Let_def split: xhr_end.splits option.splits)

lemma ingestFile_sorted:
  assumes "0 < T" "\<forall>e\<in>set events. ev_total e = T \<and> 0 \<le> ev_loaded e \<and> ev_loaded e \<le> T"
    and "sorted (map ev_loaded events)"
  shows "sorted (map progress (fst (ingestFile f onProgress t0 events fin)))"
proof (cases onProgress)
  case False
  then show ?thesis
    using ingestFile_events[where f = f and onProgress = onProgress and ?t0.0 = t0
        and events = events and fin = fin]
    by (auto simp: uploadProgressEvents_nocb)
next
  case True
  let ?mid = "map percentComplete (filter lengthComputable events)"
  have s: "sorted ?mid" using assms by (intro sorted_percentComplete[of T]) auto
  have b: "\<forall>p\<in>set ?mid. 0 \<le> p \<and> p \<le> 50"
    using assms(1,2) by (auto dest!: percentComplete_bounds[rotated -1])
  have all: "sorted ([0] @ ?mid @ [100])" "sorted ([0] @ ?mid)" "sorted (?mid @ [100])"
    using s b by (auto simp: sorted_append)
  obtain res where "ingestFile f onProgress t0 events fin =
     ((if onProgress \<and> file_size f \<noteq> 0 then [initialUploadEvent f] else []) @
      uploadProgressEvents onProgress \<lparr>lastLoaded = 0, lastTime = t0, currentSpeed = 0\<rparr> events @
      (if onProgress \<and> file_size f \<noteq> 0 \<and> (\<exists>r. res = Inr r) then [finalUploadEvent f] else []),
      res)"
    using ingestFile_events by blast
  with True all s show ?thesis
    by (simp add: uploadProgressEvents_progress initialUploadEvent_def finalUploadEvent_def)
qed

text \<open>
  \<^bold>\<open>C6\<close>.  On a sample whose length is computable, the handler updates the smoothed rate
  and the retained sample exactly as \<open>meterSpec\<close> says, and reports the new smoothed rate
  in the event.
\<close>

theorem transfer_meter_update:
  assumes "lengthComputable event"
  shows "(currentSpeed (fst (onprogress True s event)),
          lastTime (fst (onprogress True s event)),
          lastLoaded (fst (onprogress True s event)))
         = meterSpec (currentSpeed s, lastTime s, lastLoaded s) (now event, ev_loaded event)
       \<and> map speed (snd (onprogress True s event)) = [currentSpeed (fst (onprogress True s event))]"
  using assms
  by (simp add: onprogress_def meterSpec_def Let_def timeDiff_gate smoothingFactor_def)

text \<open>
  250 ms after the retained sample the rate moves from 2000 to \<open>0.3 * 4000 + 0.7 * 2000\<close>;
  99 ms after it nothing changes.
\<close>

theorem transfer_meter_update_witness:
  "(currentSpeed (fst (onprogress True \<lparr>lastLoaded = 500, lastTime = 1250, currentSpeed = 2000\<rparr>
       \<lparr>lengthComputable = True, ev_loaded = 1500, ev_total = 2000, now = 1500\<rparr>)),
    lastTime (fst (onprogress True \<lparr>lastLoaded = 500, lastTime = 1250, currentSpeed = 2000\<rparr>
       \<lparr>lengthComputable = True, ev_loaded = 1500, ev_total = 2000, now = 1500\<rparr>)),
    lastLoaded (fst (onprogress True \<lparr>lastLoaded = 500, lastTime = 1250, currentSpeed = 2000\<rparr>
       \<lparr>lengthComputable = True, ev_loaded = 1500, ev_total = 2000, now = 1500\<rparr>)))
     = (2600, 1500, 1500)
   \<and> (currentSpeed (fst (onprogress True \<lparr>lastLoaded = 500, lastTime = 1250, currentSpeed = 2000\<rparr>
       \<lparr>lengthComputable = True, ev_loaded = 1500, ev_total = 2000, now = 1349\<rparr>)),
    lastTime (fst (onprogress True \<lparr>lastLoaded = 500, lastTime = 1250, currentSpeed = 2000\<rparr>
       \<lparr>lengthComputable = True, ev_loaded = 1500, ev_total = 2000, now = 1349\<rparr>)),
    lastLoaded (fst (onprogress True \<lparr>lastLoaded = 500, lastTime = 1250, currentSpeed = 2000\<rparr>
       \<lparr>lengthComputable = True, ev_loaded = 1500, ev_total = 2000, now = 1349\<rparr>)))
     = (2000, 1250, 500)"
  using transfer_meter_update [of "\<lparr>lengthComputable = True, ev_loaded = 1500, ev_total = 2000, now = 1500\<rparr>"
              "\<lparr>lastLoaded = 500, lastTime = 1250, currentSpeed = 2000\<rparr>"]
        transfer_meter_update [of "\<lparr>lengthComputable = True, ev_loaded = 1500, ev_total = 2000, now = 1349\<rparr>"
              "\<lparr>lastLoaded = 500, lastTime = 1250, currentSpeed = 2000\<rparr>"]
  by (simp add: meterSpec_def)

text \<open>
  \<^bold>\<open>C2\<close> (as amended).  For a file of non-zero size and a call with \<open>onProgress\<close>, with
  progress events that satisfy \<open>0 \<le> loaded \<le> total\<close> and \<open>0 < total\<close> whenever their length
  is computable: the first event has percent 0; when the call fails every event has a
  percent in \<open>[0, 50]\<close>; when it succeeds every event but the last has a percent in
  \<open>[0, 50]\<close> and the last has percent 100.
\<close>

theorem upload_percent_range:
  assumes "0 < file_size f"
      and "\<forall>e\<in>set events. lengthComputable e \<longrightarrow>
             0 \<le> ev_loaded e \<and> ev_loaded e \<le> ev_total e \<and> 0 < ev_total e"
      and "ingestFile f True t0 events fin = (evs, res)"
  shows "evs \<noteq> [] \<and> progress (hd evs) = 0 \<and>
         (case res of
            Inl err \<Rightarrow> (\<forall>e\<in>set evs. 0 \<le> progress e \<and> progress e \<le> 50)
          | Inr r \<Rightarrow> (\<forall>e\<in>set (butlast evs). 0 \<le> progress e \<and> progress e \<le> 50)
                     \<and> progress (last evs) = 100)"
proof -
  let ?mid = "uploadProgressEvents True \<lparr>lastLoaded = 0, lastTime = t0, currentSpeed = 0\<rparr> events"
  have "\<forall>p\<in>set (map percentComplete (filter lengthComputable events)). 0 \<le> p \<and> p \<le> 50"
    using assms(2) by (auto dest!: percentComplete_bounds[rotated -1])
  then have "\<forall>p\<in>set (map progress ?mid). 0 \<le> p \<and> p \<le> 50"
    by (simp only: uploadProgressEvents_progress)
  then have mid: "\<forall>e\<in>set ?mid. 0 \<le> progress e \<and> progress e \<le> 50" by simp
  obtain res' where "ingestFile f True t0 events fin =
     ((if True \<and> file_size f \<noteq> 0 then [initialUploadEvent f] else []) @ ?mid @
      (if True \<and> file_size f \<noteq> 0 \<and> (\<exists>r. res' = Inr r) then [finalUploadEvent f] else []),
      res')"
    using ingestFile_events by blast
  with assms(1,3) have evs: "evs = initialUploadEvent f # ?mid @
      (if (\<exists>r. res = Inr r) then [finalUploadEvent f] else [])"
    by auto
  show ?thesis
  proof (cases res)
    case (Inl err)
    with evs mid show ?thesis by (auto simp: initialUploadEvent_def)
  next
    case (Inr r)
    with evs have "evs = (initialUploadEvent f # ?mid) @ [finalUploadEvent f]" by simp
    with Inr mid show ?thesis
      by (auto simp: initialUploadEvent_def finalUploadEvent_def)
  qed
qed

lemma sample_upload_run:
  "\<exists>evs. ingestFile sampleFile True 1000
      [\<lparr>lengthComputable = True, ev_loaded = 250, ev_total = 1200, now = 1150\<rparr>,
       \<lparr>lengthComputable = True, ev_loaded = 1200, ev_total = 1200, now = 1400\<rparr>] okResponse
     = (evs, Inr uploaded)"
  by (simp add: ingestFile_def okResponse_def sampleFile_def Let_def)

text \<open>
A 1000-byte file uploaded in two progress events.
\<close>

theorem upload_percent_range_witness:
  "progress (hd (fst (ingestFile sampleFile True 1000
      [\<lparr>lengthComputable = True, ev_loaded = 250, ev_total = 1200, now = 1150\<rparr>,
       \<lparr>lengthComputable = True, ev_loaded = 1200, ev_total = 1200, now = 1400\<rparr>] okResponse))) = 0
   \<and> progress (last (fst (ingestFile sampleFile True 1000
      [\<lparr>lengthComputable = True, ev_loaded = 250, ev_total = 1200, now = 1150\<rparr>,
       \<lparr>lengthComputable = True, ev_loaded = 1200, ev_total = 1200, now = 1400\<rparr>] okResponse))) = 100"
proof -
  obtain evs where run: "ingestFile sampleFile True 1000
      [\<lparr>lengthComputable = True, ev_loaded = 250, ev_total = 1200, now = 1150\<rparr>,
       \<lparr>lengthComputable = True, ev_loaded = 1200, ev_total = 1200, now = 1400\<rparr>] okResponse
     = (evs, Inr uploaded)"
    using sample_upload_run by blast
  have sz: "0 < file_size sampleFile" by (simp add: sampleFile_def)
  from upload_percent_range [OF sz _ run] run show ?thesis by simp
qed

text \<open>
  \<^bold>\<open>C2\<close> as stated fails for an empty file: both the initial and the final event are
  guarded by \<open>file.size\<close>, so the only event of this successful upload has percent 50.
\<close>

theorem empty_file_skips_initial_and_final_event:
  "map progress (fst (ingestFile \<lparr>file_size = 0\<rparr> True 1000
      [\<lparr>lengthComputable = True, ev_loaded = 200, ev_total = 200, now = 1150\<rparr>] okResponse)) = [50]
   \<and> snd (ingestFile \<lparr>file_size = 0\<rparr> True 1000
      [\<lparr>lengthComputable = True, ev_loaded = 200, ev_total = 200, now = 1150\<rparr>] okResponse)
     = Inr uploaded"
  by (simp add: ingestFile_def okResponse_def Let_def uploadProgressEvents_progress
        percentComplete_def jsRound_def floor_eq_iff del: uploadProgressEvents.simps)

section \<open>Percent values never decrease\<close>

lemma pollLoop_bounded:
  "(\<forall>k pd. server k = Ok pd \<longrightarrow> pd_progress pd \<le> 100) \<Longrightarrow>
   \<forall>e\<in>set (fst (pollLoop maxAttempts server lastProgress attempts result)). progress e \<le> 100"
proof (induction maxAttempts server lastProgress attempts result rule: pollLoop.induct)
  case (1 maxAttempts server lastProgress attempts result)
  show ?case
  proof (cases "attempts < maxAttempts")
    case False
    then show ?thesis by (simp add: pollLoop.simps)
  next
    case True
    obtain evs lp' c where it: "iteration (server attempts) lastProgress result = (evs, lp', c)"
      by (metis prod_cases3)
    from iteration_events[OF it] 1(2) have ev: "\<forall>e\<in>set evs. progress e \<le> 100"
      by auto
    show ?thesis
    proof (cases c)
      case Normal
      note ih = 1(1)[OF True it[symmetric] refl Normal 1(2)]
      from ev ih True it Normal show ?thesis
        by (subst pollLoop.simps) (auto split: prod.splits)
    next
      case (Broke r)
      with ev True it show ?thesis
        by (subst pollLoop.simps) auto
    next
      case (Threw e)
      with ev True it show ?thesis
        by (subst pollLoop.simps) auto
    qed
  qed
qed

lemma ingestUrl_sorted:
  assumes "\<forall>k pd. server k = Ok pd \<longrightarrow> pd_progress pd \<le> 100"
  shows "sorted (map progress (fst (ingestUrl onProgress init server)))"
proof (cases init)
  case (InitOk result)
  obtain evs n res where run: "pollLoop 360 server 5 0 result = (evs, n, res)"
    by (metis prod_cases3)
  have "sorted_wrt (<) (5 # map progress (fst (pollLoop 360 server 5 0 result)))"
    by (rule pollLoop_strictly_increasing)
  with run have inc: "sorted_wrt (<) (5 # map progress evs)" by simp
  have "\<forall>e\<in>set (fst (pollLoop 360 server 5 0 result)). progress e \<le> 100"
    by (rule pollLoop_bounded[OF assms])
  with run have bnd: "\<forall>e\<in>set evs. progress e \<le> 100" by simp
  from inc have "sorted_wrt (\<le>) (5 # map progress evs)"
    by (rule sorted_wrt_mono_rel[rotated]) simp
  then have s1: "sorted (5 # map progress evs)" by simp
  with bnd have s2: "sorted (5 # map progress evs @ [100])"
    by (auto simp: sorted_append)
  from InitOk run s1 s2 show ?thesis
    by (auto simp: ingestUrl_def Let_def initialUrlEvent_def finalUrlEvent_def
          split: sum.splits)
qed (auto simp: ingestUrl_def Let_def)

text \<open>
  \<^bold>\<open>C1\<close> (as amended).  The percent values handed to \<open>onProgress\<close> during one call are
  non-decreasing: by \<open>ingestFile\<close> when the progress events share one positive \<open>total\<close>,
  have \<open>0 \<le> loaded \<le> total\<close> and \<open>loaded\<close> never decreases; by \<open>ingestUrl\<close> when no status
  reports a progress above 100.
\<close>

theorem percent_non_decreasing:
  "(0 < T \<and> (\<forall>e\<in>set events. ev_total e = T \<and> 0 \<le> ev_loaded e \<and> ev_loaded e \<le> T)
      \<and> sorted (map ev_loaded events)
    \<longrightarrow> sorted (map progress (fst (ingestFile f onProgress t0 events fin))))
   \<and> ((\<forall>k pd. server k = Ok pd \<longrightarrow> pd_progress pd \<le> 100)
    \<longrightarrow> sorted (map progress (fst (ingestUrl onProgress init server))))"
  using ingestFile_sorted ingestUrl_sorted by blast

text \<open>
An upload in two progress events, and a job that completes on its third poll.
\<close>

theorem percent_non_decreasing_witness:
  "sorted (map progress (fst (ingestFile sampleFile True 1000
      [\<lparr>lengthComputable = True, ev_loaded = 250, ev_total = 1200, now = 1150\<rparr>,
       \<lparr>lengthComputable = True, ev_loaded = 1200, ev_total = 1200, now = 1400\<rparr>] okResponse)))
   \<and> sorted (map progress (fst (ingestUrl True (InitOk jobAccepted)
      (\<lambda>k. if k < 2 then Ok (pollBody 10 (Some ''running'') None)
           else Ok (pollBody 100 (Some ''complete'') None)))))"
  using percent_non_decreasing [where T = 1200 and f = sampleFile and onProgress = True and ?t0.0 = 1000
      and events = "[\<lparr>lengthComputable = True, ev_loaded = 250, ev_total = 1200, now = 1150\<rparr>,
       \<lparr>lengthComputable = True, ev_loaded = 1200, ev_total = 1200, now = 1400\<rparr>]"
      and fin = okResponse and init = "InitOk jobAccepted"
      and server = "\<lambda>k. if k < 2 then Ok (pollBody 10 (Some ''running'') None)
           else Ok (pollBody 100 (Some ''complete'') None)"]
  by (simp add: pollBody_def)

text \<open>
  \<^bold>\<open>C1\<close> as stated fails: a status with progress 150 is forwarded as it is and ends the
  loop, and the final event then goes back to 100.
\<close>

theorem oversized_server_progress_breaks_monotonicity:
  "map progress (fst (ingestUrl True (InitOk jobAccepted)
      (\<lambda>k. Ok (pollBody 150 (Some ''running'') None)))) = [5, 150, 100]
   \<and> \<not> sorted (map progress (fst (ingestUrl True (InitOk jobAccepted)
      (\<lambda>k. Ok (pollBody 150 (Some ''running'') None)))))"
  unfolding ingestUrl_def
  by (subst (1 2) pollLoop.simps) (simp add: poll_eval)

section \<open>The coordinator\<close>

text \<open>
  \<^bold>\<open>C7\<close>.  When the channel that \<open>handleIngest\<close> calls fails, the handler ends in status
  \<open>ERROR\<close> with progress 0 and the message of the thrown \<open>Error\<close> as \<open>errorMessage\<close>
  (\<open>Unknown error\<close> for a thrown value that is not an \<open>Error\<close>), and it has called the
  channel once.
\<close>

theorem channel_failure_sets_error_state:
  "(activeTab st = FileTab \<and> chosenFile st = Some f \<and> fileChannel f = (evs, Inl err) \<longrightarrow>
      uploadStatus (fst (handleIngest fileChannel urlChannel st)) = ERROR \<and>
      uploadProgress (fst (handleIngest fileChannel urlChannel st)) = 0 \<and>
      errorMessage (fst (handleIngest fileChannel urlChannel st))
        = (case err of ErrorObj m \<Rightarrow> m | NonError \<Rightarrow> ''Unknown error'') \<and>
      snd (handleIngest fileChannel urlChannel st) = [CallIngestFile f])
   \<and> (activeTab st' = UrlTab \<and> url st' \<noteq> [] \<and> urlChannel' (url st') = (evs', Inl err') \<longrightarrow>
      uploadStatus (fst (handleIngest fileChannel' urlChannel' st')) = ERROR \<and>
      uploadProgress (fst (handleIngest fileChannel' urlChannel' st')) = 0 \<and>
      errorMessage (fst (handleIngest fileChannel' urlChannel' st'))
        = (case err' of ErrorObj m \<Rightarrow> m | NonError \<Rightarrow> ''Unknown error'') \<and>
      snd (handleIngest fileChannel' urlChannel' st') = [CallIngestUrl (url st')])"
  by (simp add: handleIngest_def onFailure_def)

text \<open>
A network error during an upload, and a URL the backend rejects.
\<close>

theorem channel_failure_sets_error_state_witness:
  "fst (handleIngest (fileChannelRun 1000 [] OnError)
          (urlChannelRun (InitNotOk (Some (Some ''unsupported url''))) (\<lambda>k. NotOk))
          (idleApp\<lparr>chosenFile := Some sampleFile\<rparr>))
     = idleApp\<lparr>chosenFile := Some sampleFile, uploadStatus := ERROR,
               errorMessage := ''Network error'', uploadMessage := ''Starting upload...''\<rparr>
   \<and> snd (handleIngest (fileChannelRun 1000 [] OnError)
          (urlChannelRun (InitNotOk (Some (Some ''unsupported url''))) (\<lambda>k. NotOk))
          (idleApp\<lparr>chosenFile := Some sampleFile\<rparr>)) = [CallIngestFile sampleFile]
   \<and> uploadStatus (fst (handleIngest (fileChannelRun 1000 [] OnError)
          (urlChannelRun (InitNotOk (Some (Some ''unsupported url''))) (\<lambda>k. NotOk))
          (idleApp\<lparr>activeTab := UrlTab, url := ''http://v''\<rparr>))) = ERROR
   \<and> errorMessage (fst (handleIngest (fileChannelRun 1000 [] OnError)
          (urlChannelRun (InitNotOk (Some (Some ''unsupported url''))) (\<lambda>k. NotOk))
          (idleApp\<lparr>activeTab := UrlTab, url := ''http://v''\<rparr>))) = ''unsupported url''
   \<and> uploadProgress (fst (handleIngest (fileChannelRun 1000 [] OnError)
          (urlChannelRun (InitNotOk (Some (Some ''unsupported url''))) (\<lambda>k. NotOk))
          (idleApp\<lparr>activeTab := UrlTab, url := ''http://v''\<rparr>))) = 0"
proof -
  let ?fc = "fileChannelRun 1000 [] OnError"
  let ?uc = "urlChannelRun (InitNotOk (Some (Some ''unsupported url''))) (\<lambda>k. NotOk)"
  have f: "?fc sampleFile = ([initialUploadEvent sampleFile], Inl (ErrorObj ''Network error''))"
    by (simp add: fileChannelRun_def ingestFile_def sampleFile_def)
  have u: "?uc ''http://v'' = ([initialUrlEvent], Inl (ErrorObj ''unsupported url''))"
    by (simp add: urlChannelRun_def ingestUrl_def strOr_def)
  have whole: "fst (handleIngest ?fc ?uc (idleApp\<lparr>chosenFile := Some sampleFile\<rparr>))
     = idleApp\<lparr>chosenFile := Some sampleFile, uploadStatus := ERROR,
               errorMessage := ''Network error'', uploadMessage := ''Starting upload...''\<rparr>"
    by (simp add: handleIngest_def f idleApp_def onFailure_def onProgressCallback_def
          initialUploadEvent_def)
  from channel_failure_sets_error_state
         [where st = "idleApp\<lparr>chosenFile := Some sampleFile\<rparr>" and f = sampleFile
            and fileChannel = ?fc and urlChannel = ?uc
            and evs = "[initialUploadEvent sampleFile]" and err = "ErrorObj ''Network error''"
            and st' = "idleApp\<lparr>activeTab := UrlTab, url := ''http://v''\<rparr>"
            and fileChannel' = ?fc and urlChannel' = ?uc
            and evs' = "[initialUrlEvent]" and err' = "ErrorObj ''unsupported url''"]
    f u whole
  show ?thesis by (simp add: idleApp_def)
qed

text \<open>
  \<^bold>\<open>C8\<close>.  From any state, selecting a listed file sets the status to \<open>SUCCESS\<close>, adopts
  its name and its display name (the name itself when the display name is absent or
  empty), leaves no error on display, and empties the summary, the answer and the
  question history.
\<close>

theorem select_from_history_resets:
  "uploadStatus (handleSelectFromHistory fileName displayName st) = SUCCESS
   \<and> uploadedFileName (handleSelectFromHistory fileName displayName st) = Some fileName
   \<and> originalFileName (handleSelectFromHistory fileName displayName st)
       = (case displayName of None \<Rightarrow> fileName | Some d \<Rightarrow> if d = [] then fileName else d)
   \<and> displayedError errorIngest (handleSelectFromHistory fileName displayName st) = None
   \<and> summaryResult (handleSelectFromHistory fileName displayName st) = []
   \<and> qaResult (handleSelectFromHistory fileName displayName st) = []
   \<and> qaHistory (handleSelectFromHistory fileName displayName st) = []"
  by (simp add: handleSelectFromHistory_def displayedError_def strOr_def)

end
